theory Spec2Isabelle
  imports Main
begin

section \<open>Values shared by the whole development\<close>

text \<open>
  A Python \<open>str\<close> that reaches the encryption service is a list of code points, a
  \<open>bytes\<close> value a list of numbers below 256. Identifiers that the code only compares,
  concatenates and slices (addresses, header names and values, file names, content types,
  Redis keys) are HOL strings.
\<close>

type_synonym pystr = "nat list"
type_synonym bytes = "nat list"
type_synonym uuid = string

datatype exn =
    EncryptionException
  | ValueError
  | InboxNotFoundException
  | QuotaExceededException
  | IntegrityError
  | AttributeError
  | IndexError
  | SanitizationException
  | BinasciiError
  | RedisError
  | DatabaseError
  | ParseError

definition is_bytes :: "nat list \<Rightarrow> bool" where
  "is_bytes bs = list_all (\<lambda>b. b < 256) bs"

definition ascii :: "string \<Rightarrow> nat list" where
  "ascii s = map of_char s"

section \<open>UTF-8, as \<open>str.encode('utf-8')\<close> and \<open>bytes.decode('utf-8', errors=...)\<close> do it\<close>

fun encode_cp :: "nat \<Rightarrow> bytes option" where
  "encode_cp cp =
     (if cp < 0x80 then Some [cp]
      else if cp < 0x800 then Some [0xC0 + cp div 64, 0x80 + cp mod 64]
      else if 0xD800 \<le> cp \<and> cp \<le> 0xDFFF then None
      else if cp < 0x10000 then
        Some [0xE0 + cp div 4096, 0x80 + (cp div 64) mod 64, 0x80 + cp mod 64]
      else if cp < 0x110000 then
        Some [0xF0 + cp div 262144, 0x80 + (cp div 4096) mod 64,
              0x80 + (cp div 64) mod 64, 0x80 + cp mod 64]
      else None)"

fun utf8_encode :: "pystr \<Rightarrow> bytes option" where
  "utf8_encode [] = Some []"
| "utf8_encode (cp # s) =
     (case encode_cp cp of
        None \<Rightarrow> None
      | Some bs \<Rightarrow> (case utf8_encode s of None \<Rightarrow> None | Some r \<Rightarrow> Some (bs @ r)))"

definition is_cont :: "nat \<Rightarrow> bool" where
  "is_cont b = (0x80 \<le> b \<and> b \<le> 0xBF)"

text \<open>The second byte of a three- or four-byte sequence has a range of its own, which
  excludes overlong forms, surrogates and code points above U+10FFFF.\<close>

definition second_ok :: "nat \<Rightarrow> nat \<Rightarrow> bool" where
  "second_ok b0 b1 =
     (if b0 = 0xE0 then 0xA0 \<le> b1 \<and> b1 \<le> 0xBF
      else if b0 = 0xED then 0x80 \<le> b1 \<and> b1 \<le> 0x9F
      else if b0 = 0xF0 then 0x90 \<le> b1 \<and> b1 \<le> 0xBF
      else if b0 = 0xF4 then 0x80 \<le> b1 \<and> b1 \<le> 0x8F
      else is_cont b1)"

text \<open>
  The decoder's scan: one item per decoded code point, and \<open>None\<close> for each range of
  bytes the decoder reports as an error (an invalid start byte, a sequence cut by an
  invalid continuation byte, a sequence cut by the end of the data).
\<close>

fun utf8_scan :: "bytes \<Rightarrow> nat option list" where
  "utf8_scan [] = []"
| "utf8_scan (b0 # bs) =
     (if b0 < 0x80 then Some b0 # utf8_scan bs
      else if 0xC2 \<le> b0 \<and> b0 \<le> 0xDF then
        (case bs of
           [] \<Rightarrow> [None]
         | b1 # r1 \<Rightarrow>
             if is_cont b1 then Some ((b0 - 0xC0) * 64 + (b1 - 0x80)) # utf8_scan r1
             else None # utf8_scan (b1 # r1))
      else if 0xE0 \<le> b0 \<and> b0 \<le> 0xEF then
        (case bs of
           [] \<Rightarrow> [None]
         | b1 # r1 \<Rightarrow>
             if \<not> second_ok b0 b1 then None # utf8_scan (b1 # r1)
             else (case r1 of
                     [] \<Rightarrow> [None]
                   | b2 # r2 \<Rightarrow>
                       if is_cont b2 then
                         Some ((b0 - 0xE0) * 4096 + (b1 - 0x80) * 64 + (b2 - 0x80))
                           # utf8_scan r2
                       else None # utf8_scan (b2 # r2)))
      else if 0xF0 \<le> b0 \<and> b0 \<le> 0xF4 then
        (case bs of
           [] \<Rightarrow> [None]
         | b1 # r1 \<Rightarrow>
             if \<not> second_ok b0 b1 then None # utf8_scan (b1 # r1)
             else (case r1 of
                     [] \<Rightarrow> [None]
                   | b2 # r2 \<Rightarrow>
                       if \<not> is_cont b2 then None # utf8_scan (b2 # r2)
                       else (case r2 of
                               [] \<Rightarrow> [None]
                             | b3 # r3 \<Rightarrow>
                                 if is_cont b3 then
                                   Some ((b0 - 0xF0) * 262144 + (b1 - 0x80) * 4096
                                         + (b2 - 0x80) * 64 + (b3 - 0x80))
                                     # utf8_scan r3
                                 else None # utf8_scan (b3 # r3))))
      else None # utf8_scan bs)"

text \<open>\<open>bytes.decode('utf-8')\<close>: any error range raises \<open>UnicodeDecodeError\<close>.\<close>

definition utf8_decode :: "bytes \<Rightarrow> pystr option" where
  "utf8_decode bs =
     (let items = utf8_scan bs
      in if list_all (\<lambda>i. i \<noteq> None) items then Some (map the items) else None)"

text \<open>\<open>bytes.decode('utf-8', errors='replace')\<close>: each error range becomes U+FFFD.\<close>

definition utf8_decode_replace :: "bytes \<Rightarrow> pystr" where
  "utf8_decode_replace bs =
     map (\<lambda>i. case i of None \<Rightarrow> 0xFFFD | Some cp \<Rightarrow> cp) (utf8_scan bs)"

definition valid_utf8 :: "bytes \<Rightarrow> bool" where
  "valid_utf8 bs = (utf8_decode bs \<noteq> None)"

section \<open>Base64, as the \<open>base64\<close> module does it\<close>

definition b64_alpha :: "nat \<Rightarrow> nat" where
  "b64_alpha n =
     (if n < 26 then 65 + n
      else if n < 52 then 71 + n
      else if n < 62 then n - 4
      else if n = 62 then 43
      else 47)"

fun b2a_base64 :: "bytes \<Rightarrow> nat list" where
  "b2a_base64 (a # b # c # r) =
     [b64_alpha (a div 4), b64_alpha ((a mod 4) * 16 + b div 16),
      b64_alpha ((b mod 16) * 4 + c div 64), b64_alpha (c mod 64)] @ b2a_base64 r"
| "b2a_base64 [a, b] =
     [b64_alpha (a div 4), b64_alpha ((a mod 4) * 16 + b div 16),
      b64_alpha ((b mod 16) * 4), 61]"
| "b2a_base64 [a] = [b64_alpha (a div 4), b64_alpha ((a mod 4) * 16), 61, 61]"
| "b2a_base64 [] = []"

definition b64encode :: "bytes \<Rightarrow> nat list" where
  "b64encode s = b2a_base64 s"

definition urlsafe_b64encode :: "bytes \<Rightarrow> nat list" where
  "urlsafe_b64encode s =
     map (\<lambda>c. if c = 43 then 45 else if c = 47 then 95 else c) (b64encode s)"

definition table_a2b_base64 :: "nat \<Rightarrow> nat option" where
  "table_a2b_base64 c =
     (if 65 \<le> c \<and> c \<le> 90 then Some (c - 65)
      else if 97 \<le> c \<and> c \<le> 122 then Some (c - 71)
      else if 48 \<le> c \<and> c \<le> 57 then Some (c + 4)
      else if c = 43 then Some 62
      else if c = 47 then Some 63
      else None)"

text \<open>
  \<open>binascii.a2b_base64\<close> without strict mode: a character outside the alphabet is
  skipped, a padding sequence that completes a quad ends the decoding and whatever
  follows it is not read, and the low bits of the last character before the padding are
  dropped without a check. The state is the position in the quad, the bits left over,
  the padding characters seen since the last data character, and the output.
\<close>

fun a2b_base64 :: "nat \<Rightarrow> nat \<Rightarrow> nat \<Rightarrow> bytes \<Rightarrow> nat list \<Rightarrow> exn + bytes" where
  "a2b_base64 quad_pos leftchar pads out [] =
     (if quad_pos \<noteq> 0 then Inl BinasciiError else Inr out)"
| "a2b_base64 quad_pos leftchar pads out (c # cs) =
     (if c = 61 then
        (if quad_pos \<ge> 2 then
           (if quad_pos + (pads + 1) \<ge> 4 then Inr out
            else a2b_base64 quad_pos leftchar (pads + 1) out cs)
         else a2b_base64 quad_pos leftchar pads out cs)
      else
        (case table_a2b_base64 c of
           None \<Rightarrow> a2b_base64 quad_pos leftchar pads out cs
         | Some this_ch \<Rightarrow>
             if quad_pos = 0 then a2b_base64 1 this_ch 0 out cs
             else if quad_pos = 1 then
               a2b_base64 2 (this_ch mod 16) 0 (out @ [leftchar * 4 + this_ch div 16]) cs
             else if quad_pos = 2 then
               a2b_base64 3 (this_ch mod 4) 0 (out @ [leftchar * 16 + this_ch div 4]) cs
             else a2b_base64 0 0 0 (out @ [leftchar * 64 + this_ch]) cs))"

definition b64decode :: "bytes \<Rightarrow> exn + bytes" where
  "b64decode s = a2b_base64 0 0 0 [] s"

definition urlsafe_b64decode :: "bytes \<Rightarrow> exn + bytes" where
  "urlsafe_b64decode s =
     b64decode (map (\<lambda>c. if c = 45 then 43 else if c = 95 then 47 else c) s)"

section \<open>\<open>EncryptionService\<close> (app/core/security.py)\<close>

text \<open>
  \<open>self.cipher\<close> is a Fernet object of the \<open>cryptography\<close> package, which is not part
  of the repository: the service is modelled over any pair of a token-producing \<open>fenc\<close>
  and a token-checking \<open>fdec\<close> (\<open>None\<close> for \<open>InvalidToken\<close>).
\<close>

record cipher =
  fenc :: "bytes \<Rightarrow> bytes"
  fdec :: "bytes \<Rightarrow> bytes option"

definition encrypt :: "cipher \<Rightarrow> pystr \<Rightarrow> exn + pystr" where
  "encrypt c data =
     (case utf8_encode data of
        None \<Rightarrow> Inl EncryptionException
      | Some plain \<Rightarrow> Inr (urlsafe_b64encode (fenc c plain)))"

definition decrypt :: "cipher \<Rightarrow> pystr \<Rightarrow> exn + pystr" where
  "decrypt c encrypted_data =
     (case utf8_encode encrypted_data of
        None \<Rightarrow> Inl EncryptionException
      | Some e \<Rightarrow>
          (case urlsafe_b64decode e of
             Inl _ \<Rightarrow> Inl EncryptionException
           | Inr decoded \<Rightarrow>
               (case fdec c decoded of
                  None \<Rightarrow> Inl EncryptionException
                | Some decrypted \<Rightarrow>
                    (case utf8_decode decrypted of
                       None \<Rightarrow> Inl EncryptionException
                     | Some text \<Rightarrow> Inr text))))"

section \<open>Parsed mail: what the \<open>email\<close> package hands to the processor\<close>

text \<open>
  A part of a parsed message is observed through the accessors the processor calls:
  its headers, \<open>get_content_type()\<close>, \<open>get_filename()\<close>, \<open>get_content()\<close> (which
  may raise, \<open>None\<close> here) and \<open>get_payload(decode=True)\<close>. The parser gives sub-parts
  only to a part whose main type is \<open>multipart\<close> or \<open>message\<close>, every other part is a
  leaf with a payload; the datatype has the same shape.

  With \<open>policy.default\<close> the parser keeps each header as the text it read and the
  header is parsed when it is accessed. \<open>parsebytes\<close> accepts \<open>From: "\<close> and
  \<open>message.get('From')\<close> then raises an \<open>IndexError\<close> out of the header parser: a
  header is either one whose access returns its value, or one whose access raises. The
  parser itself reads \<open>Content-Type\<close> of every part, so \<open>get_content_type()\<close> of a
  parsed part returns.
\<close>

datatype multi_kind = Multipart | MessageKind

datatype header_value = Value string | RaisesIndexError | RaisesAttributeError

datatype email_part =
    Leaf "(string \<times> header_value) list" string "string option" "pystr option" bytes
  | Multi "(string \<times> header_value) list" multi_kind string "string option" "email_part list"

fun hdrs :: "email_part \<Rightarrow> (string \<times> header_value) list" where
  "hdrs (Leaf h ct fn c p) = h"
| "hdrs (Multi h k sub fn ps) = h"

fun is_multipart :: "email_part \<Rightarrow> bool" where
  "is_multipart (Leaf h ct fn c p) = False"
| "is_multipart (Multi h k sub fn ps) = True"

fun get_content_type :: "email_part \<Rightarrow> string" where
  "get_content_type (Leaf h ct fn c p) = ct"
| "get_content_type (Multi h k sub fn ps) =
     (case k of Multipart \<Rightarrow> ''multipart/'' | MessageKind \<Rightarrow> ''message/'') @ sub"

definition get_content_maintype :: "email_part \<Rightarrow> string" where
  "get_content_maintype p = takeWhile (\<lambda>c. c \<noteq> CHR ''/'') (get_content_type p)"

fun filename_param :: "email_part \<Rightarrow> string option" where
  "filename_param (Leaf h ct fn c p) = fn"
| "filename_param (Multi h k sub fn ps) = fn"

text \<open>\<open>get_content()\<close>: the content manager has no handler for a part with sub-parts.\<close>

fun get_content :: "email_part \<Rightarrow> exn + pystr" where
  "get_content (Leaf h ct fn c p) = (case c of None \<Rightarrow> Inl ValueError | Some s \<Rightarrow> Inr s)"
| "get_content (Multi h k sub fn ps) = Inl ValueError"

text \<open>\<open>get_payload(decode=True)\<close>: \<open>None\<close> for a part with sub-parts.\<close>

fun get_payload_decode :: "email_part \<Rightarrow> bytes option" where
  "get_payload_decode (Leaf h ct fn c p) = Some p"
| "get_payload_decode (Multi h k sub fn ps) = None"

fun walk :: "email_part \<Rightarrow> email_part list" where
  "walk (Leaf h ct fn c p) = [Leaf h ct fn c p]"
| "walk (Multi h k sub fn ps) = Multi h k sub fn ps # concat (map walk ps)"

definition lower_char :: "char \<Rightarrow> char" where
  "lower_char c =
     (let n = (of_char c :: nat)
      in if (65 \<le> n \<and> n \<le> 90) \<or> (192 \<le> n \<and> n \<le> 222 \<and> n \<noteq> 215) then char_of (n + 32)
         else c)"

definition lower :: "string \<Rightarrow> string" where
  "lower s = map lower_char s"

text \<open>What the access to a header gives: its value, or the exception of the header
  parser.\<close>

fun header_fetch_parse :: "header_value \<Rightarrow> exn + string" where
  "header_fetch_parse (Value v) = Inr v"
| "header_fetch_parse RaisesIndexError = Inl IndexError"
| "header_fetch_parse RaisesAttributeError = Inl AttributeError"

text \<open>\<open>Message.get(name)\<close>: the first header of that name, compared without case, is
  parsed and returned; \<open>None\<close> when there is no header of that name.\<close>

fun msg_get :: "(string \<times> header_value) list \<Rightarrow> string \<Rightarrow> exn + string option" where
  "msg_get [] name = Inr None"
| "msg_get ((k, v) # hs) name =
     (if lower k = lower name then
        (case header_fetch_parse v of Inl e \<Rightarrow> Inl e | Inr s \<Rightarrow> Inr (Some s))
      else msg_get hs name)"

text \<open>\<open>get_filename()\<close> reads the parameters of \<open>Content-Disposition\<close> through the same
  access (\<open>get_param\<close> calls \<open>self.get\<close>) and raises where that access raises; the
  \<open>name\<close> parameter of \<open>Content-Type\<close> it falls back to belongs to a header that the
  parser has read already.\<close>

definition get_filename :: "email_part \<Rightarrow> exn + string option" where
  "get_filename part =
     (case msg_get (hdrs part) ''Content-Disposition'' of
        Inl e \<Rightarrow> Inl e
      | Inr _ \<Rightarrow> Inr (filename_param part))"

section \<open>\<open>EmailProcessor\<close> extraction (app/smtp/processor.py)\<close>

text \<open>\<open>message.get("Subject", "")\<close>, outside any \<open>try\<close>.\<close>

definition extract_subject :: "email_part \<Rightarrow> exn + string" where
  "extract_subject message =
     (case msg_get (hdrs message) ''Subject'' of
        Inl e \<Rightarrow> Inl e
      | Inr None \<Rightarrow> Inr []
      | Inr (Some s) \<Rightarrow> Inr s)"

text \<open>The body of one part: \<open>get_content()\<close>, and in the bare \<open>except\<close> the decoded
  payload read as UTF-8 with replacement. Calling \<open>.decode\<close> on a \<open>None\<close> payload is
  an \<open>AttributeError\<close> that nothing catches.\<close>

definition part_body :: "email_part \<Rightarrow> exn + pystr" where
  "part_body part =
     (case get_content part of
        Inr s \<Rightarrow> Inr s
      | Inl _ \<Rightarrow>
          (case get_payload_decode part of
             None \<Rightarrow> Inl AttributeError
           | Some b \<Rightarrow> Inr (utf8_decode_replace b)))"

text \<open>Python's \<open>not body\<close>: true of \<open>None\<close> and of the empty string.\<close>

fun not_body :: "pystr option \<Rightarrow> bool" where
  "not_body None = True"
| "not_body (Some s) = (s = [])"

text \<open>One iteration of the loop over \<open>message.walk()\<close>, on the pair
  \<open>(html_body, text_body)\<close>.\<close>

definition bodies_step ::
  "pystr option \<times> pystr option \<Rightarrow> email_part \<Rightarrow> exn + (pystr option \<times> pystr option)" where
  "bodies_step acc part =
     (let content_type = get_content_type part; html_body = fst acc; text_body = snd acc
      in if content_type = ''text/plain'' \<and> not_body text_body then
           (case part_body part of Inl e \<Rightarrow> Inl e | Inr t \<Rightarrow> Inr (html_body, Some t))
         else if content_type = ''text/html'' \<and> not_body html_body then
           (case part_body part of Inl e \<Rightarrow> Inl e | Inr t \<Rightarrow> Inr (Some t, text_body))
         else Inr acc)"

fun bodies_loop ::
  "pystr option \<times> pystr option \<Rightarrow> email_part list \<Rightarrow> exn + (pystr option \<times> pystr option)" where
  "bodies_loop acc [] = Inr acc"
| "bodies_loop acc (part # parts) =
     (case bodies_step acc part of Inl e \<Rightarrow> Inl e | Inr acc' \<Rightarrow> bodies_loop acc' parts)"

definition extract_bodies :: "email_part \<Rightarrow> exn + (pystr option \<times> pystr option)" where
  "extract_bodies message =
     (if is_multipart message then bodies_loop (None, None) (walk message)
      else
        (let content_type = get_content_type message
         in if content_type = ''text/plain'' then
              (case part_body message of Inl e \<Rightarrow> Inl e | Inr t \<Rightarrow> Inr (None, Some t))
            else if content_type = ''text/html'' then
              (case part_body message of Inl e \<Rightarrow> Inl e | Inr t \<Rightarrow> Inr (Some t, None))
            else Inr (None, None)))"

definition common_headers :: "string list" where
  "common_headers =
     [''From'', ''To'', ''Cc'', ''Bcc'', ''Subject'', ''Date'',
      ''Message-ID'', ''In-Reply-To'', ''References'',
      ''Return-Path'', ''Reply-To'']"

text \<open>The \<open>headers\<close> dict, as an association list in insertion order; each name of the
  list is visited once, so no key is written twice. \<open>message.get(header_name)\<close> is
  called outside any \<open>try\<close>: an exception of the access leaves the loop and the
  method.\<close>

fun headers_loop ::
  "(string \<times> header_value) list \<Rightarrow> string list \<Rightarrow> (string \<times> string) list
     \<Rightarrow> exn + (string \<times> string) list" where
  "headers_loop hs [] headers = Inr headers"
| "headers_loop hs (header_name # names) headers =
     (case msg_get hs header_name of
        Inl e \<Rightarrow> Inl e
      | Inr None \<Rightarrow> headers_loop hs names headers
      | Inr (Some v) \<Rightarrow>
          if v \<noteq> [] then headers_loop hs names (headers @ [(header_name, v)])
          else headers_loop hs names headers)"

definition extract_headers :: "email_part \<Rightarrow> exn + (string \<times> string) list" where
  "extract_headers message = headers_loop (hdrs message) common_headers []"

record att_data =
  att_filename :: string
  att_content_type :: string
  att_size :: nat
  att_content :: pystr

text \<open>One iteration of the attachment loop: \<open>Inr None\<close> where the source says
  \<open>continue\<close> or finds the content empty. \<open>part.get("Content-Disposition")\<close> and
  \<open>part.get_filename()\<close> come before the \<open>try\<close>, so an exception of theirs is not
  caught; what the \<open>try\<close> encloses (the payload, its Base64 text, the content type)
  does not raise here.\<close>

definition attachment_of :: "email_part \<Rightarrow> exn + att_data option" where
  "attachment_of part =
     (if get_content_maintype part = ''multipart'' then Inr None
      else
        (case msg_get (hdrs part) ''Content-Disposition'' of
           Inl e \<Rightarrow> Inl e
         | Inr None \<Rightarrow> Inr None
         | Inr (Some _) \<Rightarrow>
             (case get_filename part of
                Inl e \<Rightarrow> Inl e
              | Inr None \<Rightarrow> Inr None
              | Inr (Some filename) \<Rightarrow>
                  if filename = [] then Inr None
                  else
                    (case get_payload_decode part of
                       None \<Rightarrow> Inr None
                     | Some content \<Rightarrow>
                         if content = [] then Inr None
                         else Inr (Some \<lparr>att_filename = filename,
                                         att_content_type = get_content_type part,
                                         att_size = length content,
                                         att_content = b64encode content\<rparr>)))))"

fun attachments_loop :: "email_part list \<Rightarrow> att_data list \<Rightarrow> exn + att_data list" where
  "attachments_loop [] atts = Inr atts"
| "attachments_loop (part # parts) atts =
     (case attachment_of part of
        Inl e \<Rightarrow> Inl e
      | Inr None \<Rightarrow> attachments_loop parts atts
      | Inr (Some a) \<Rightarrow> attachments_loop parts (atts @ [a]))"

definition extract_attachments :: "email_part \<Rightarrow> exn + att_data list" where
  "extract_attachments message =
     (if \<not> is_multipart message then Inr []
      else attachments_loop (walk message) [])"

section \<open>The Durable Store (app/db/models.py) and the Fast Index (Redis)\<close>

record inbox =
  inbox_id :: uuid
  address :: string
  token_hash :: string
  created_at :: int
  expires_at :: int
  is_active :: bool
  message_count :: int

record message_row =
  message_id :: uuid
  msg_inbox_id :: uuid
  from_address :: string
  to_address :: string
  subject :: string
  body_html_encrypted :: "pystr option"
  body_text_encrypted :: "pystr option"
  raw_email_encrypted :: pystr
  size_bytes :: nat
  has_attachments :: bool
  is_read :: bool
  msg_headers :: "(string \<times> string) list"

record attachment_row =
  att_message_id :: uuid
  filename :: string
  content_type :: string
  att_size_bytes :: nat
  content_encrypted :: pystr

text \<open>The committed tables. What a session has added or deleted but not committed is
  local to the function that holds the session, and is dropped when it raises.\<close>

record database =
  inboxes :: "inbox list"
  messages :: "message_row list"
  attachments :: "attachment_row list"

text \<open>A Redis value is a string; one that holds an integer (the counters \<open>INCR\<close>
  writes) is kept apart from the other strings.\<close>

datatype rval = Text string | Num int

text \<open>The Fast Index: its keys, and the keys on which a call raises at present
  (connection lost, timeout).\<close>

record redis =
  kv :: "string \<Rightarrow> rval option"
  unavailable :: "string \<Rightarrow> bool"

record world =
  db :: database
  rds :: redis

definition redis_get :: "redis \<Rightarrow> string \<Rightarrow> exn + rval option" where
  "redis_get r k = (if unavailable r k then Inl RedisError else Inr (kv r k))"

definition redis_incr :: "redis \<Rightarrow> string \<Rightarrow> (exn + int) \<times> redis" where
  "redis_incr r k =
     (if unavailable r k then (Inl RedisError, r)
      else
        (case kv r k of
           None \<Rightarrow> (Inr 1, r\<lparr>kv := (kv r)(k \<mapsto> Num 1)\<rparr>)
         | Some (Num n) \<Rightarrow> (Inr (n + 1), r\<lparr>kv := (kv r)(k \<mapsto> Num (n + 1))\<rparr>)
         | Some (Text s) \<Rightarrow> (Inl RedisError, r)))"

definition redis_delete :: "redis \<Rightarrow> string \<Rightarrow> (exn + unit) \<times> redis" where
  "redis_delete r k =
     (if unavailable r k then (Inl RedisError, r)
      else (Inr (), r\<lparr>kv := (kv r)(k := None)\<rparr>))"

definition is_hex :: "char \<Rightarrow> bool" where
  "is_hex c = (c \<in> set ''0123456789abcdefABCDEF'')"

text \<open>\<open>UUID(text)\<close>, for the 8-4-4-4-12 form that \<open>str(uuid)\<close> writes; any other
  text is a \<open>ValueError\<close> here.\<close>

definition UUID :: "rval \<Rightarrow> exn + uuid" where
  "UUID v =
     (case v of
        Num n \<Rightarrow> Inl ValueError
      | Text s \<Rightarrow>
          if length s = 36
             \<and> list_all (\<lambda>i. if i \<in> {8, 13, 18, 23} then s ! i = CHR ''-'' else is_hex (s ! i))
                  [0..<36]
          then Inr (lower s) else Inl ValueError)"

section \<open>\<open>InboxService\<close> (app/services/inbox_service.py)\<close>

text \<open>\<open>now\<close> is what \<open>datetime.utcnow()\<close> returns at the call.\<close>

definition get_inbox :: "int \<Rightarrow> database \<Rightarrow> uuid \<Rightarrow> inbox option" where
  "get_inbox now d iid =
     (case find (\<lambda>i. inbox_id i = iid) (inboxes d) of
        None \<Rightarrow> None
      | Some i \<Rightarrow> if expires_at i < now then None else Some i)"

definition check_quota :: "int \<Rightarrow> int \<Rightarrow> database \<Rightarrow> uuid \<Rightarrow> exn + bool" where
  "check_quota max_emails now d iid =
     (case get_inbox now d iid of
        None \<Rightarrow> Inl InboxNotFoundException
      | Some i \<Rightarrow>
          if message_count i \<ge> max_emails then Inl QuotaExceededException else Inr True)"

definition set_message_count :: "uuid \<Rightarrow> int \<Rightarrow> database \<Rightarrow> database" where
  "set_message_count iid n d =
     d\<lparr>inboxes := map (\<lambda>i. if inbox_id i = iid then i\<lparr>message_count := n\<rparr> else i) (inboxes d)\<rparr>"

text \<open>\<open>increment_message_count\<close>: the row is read, its count plus one is written and
  committed, then the Redis counter is incremented. Nothing compares the count with the
  quota.\<close>

definition increment_message_count :: "int \<Rightarrow> uuid \<Rightarrow> world \<Rightarrow> (exn + int) \<times> world" where
  "increment_message_count now iid w =
     (case get_inbox now (db w) iid of
        None \<Rightarrow> (Inl InboxNotFoundException, w)
      | Some i \<Rightarrow>
          (let new_count = message_count i + 1;
               w1 = w\<lparr>db := set_message_count iid new_count (db w)\<rparr>
           in case redis_incr (rds w1) (''inbox:count:'' @ address i) of
                (Inl e, r) \<Rightarrow> (Inl e, w1\<lparr>rds := r\<rparr>)
              | (Inr _, r) \<Rightarrow> (Inr new_count, w1\<lparr>rds := r\<rparr>)))"

section \<open>\<open>MessageService.store_message\<close> (app/services/message_service.py)\<close>

text \<open>\<open>SanitizationService.sanitize_html\<close> (app/services/sanitization_service.py):
  the empty string for an empty input, else what the \<open>bleach\<close> cleaner and
  \<open>linkify\<close> make of it; \<open>cleaner\<close> is the two together, \<open>None\<close> where one of them
  raises, and every exception of theirs becomes a \<open>SanitizationException\<close>.\<close>

definition sanitize_html :: "(pystr \<Rightarrow> pystr option) \<Rightarrow> pystr \<Rightarrow> exn + pystr" where
  "sanitize_html cleaner html =
     (if html = [] then Inr []
      else (case cleaner html of None \<Rightarrow> Inl SanitizationException | Some clean_html \<Rightarrow> Inr clean_html))"

text \<open>\<open>if body_html:\<close> is tested on the body as extracted; the text that is encrypted
  is the sanitized one, also when the sanitizer leaves nothing of it.\<close>

definition encrypt_html ::
  "cipher \<Rightarrow> (pystr \<Rightarrow> pystr option) \<Rightarrow> pystr option \<Rightarrow> exn + pystr option" where
  "encrypt_html c cleaner body_html =
     (if not_body body_html then Inr None
      else
        (case sanitize_html cleaner (the body_html) of
           Inl e \<Rightarrow> Inl e
         | Inr sanitized_html \<Rightarrow>
             (case encrypt c sanitized_html of Inl e \<Rightarrow> Inl e | Inr x \<Rightarrow> Inr (Some x))))"

text \<open>\<open>if body_text: encrypt(body_text)\<close>: nothing is stored for \<open>None\<close> or the empty
  string.\<close>

definition encrypt_opt :: "cipher \<Rightarrow> pystr option \<Rightarrow> exn + pystr option" where
  "encrypt_opt c body =
     (if not_body body then Inr None
      else (case encrypt c (the body) of Inl e \<Rightarrow> Inl e | Inr x \<Rightarrow> Inr (Some x)))"

fun attachment_rows :: "cipher \<Rightarrow> uuid \<Rightarrow> att_data list \<Rightarrow> exn + attachment_row list" where
  "attachment_rows c mid [] = Inr []"
| "attachment_rows c mid (a # as) =
     (case encrypt c (att_content a) of
        Inl e \<Rightarrow> Inl e
      | Inr enc \<Rightarrow>
          (case attachment_rows c mid as of
             Inl e \<Rightarrow> Inl e
           | Inr rows \<Rightarrow>
               Inr (\<lparr>att_message_id = mid,
                     filename = take 255 (att_filename a),
                     content_type = take 255 (att_content_type a),
                     att_size_bytes = att_size a,
                     content_encrypted = enc\<rparr> # rows)))"

text \<open>What the \<open>INSERT\<close> of a message row is checked against at \<open>flush()\<close>: the foreign
  key to the inbox, the primary key, and \<open>CHECK (size_bytes > 0)\<close>.\<close>

definition message_insert_ok :: "database \<Rightarrow> message_row \<Rightarrow> bool" where
  "message_insert_ok d m =
     (msg_inbox_id m \<in> set (map inbox_id (inboxes d))
      \<and> message_id m \<notin> set (map message_id (messages d))
      \<and> size_bytes m > 0)"

text \<open>
  \<open>store_message\<close>. \<open>cleaner\<close> is the cleaner of the sanitization service, \<open>mid\<close> the
  \<open>uuid4\<close> drawn for the row. The row is added and flushed, the attachments are added, and one
  \<open>commit()\<close> makes them durable together; an exception before it leaves the committed
  tables as they were.
\<close>

definition store_message ::
  "cipher \<Rightarrow> (pystr \<Rightarrow> pystr option) \<Rightarrow> uuid \<Rightarrow> database \<Rightarrow> uuid \<Rightarrow> string \<Rightarrow> string
     \<Rightarrow> pystr option \<Rightarrow> pystr option \<Rightarrow> bytes \<Rightarrow> (string \<times> string) list \<Rightarrow> att_data list
     \<Rightarrow> exn + (message_row \<times> database)" where
  "store_message c cleaner mid d iid from_addr subj body_html body_text raw_email hs atts =
     (case encrypt_html c cleaner body_html of
        Inl e \<Rightarrow> Inl e
      | Inr html_enc \<Rightarrow>
     (case encrypt_opt c body_text of
        Inl e \<Rightarrow> Inl e
      | Inr text_enc \<Rightarrow>
     (case encrypt c (utf8_decode_replace raw_email) of
        Inl e \<Rightarrow> Inl e
      | Inr raw_enc \<Rightarrow>
          (let message =
                 \<lparr>message_id = mid, msg_inbox_id = iid,
                  from_address = take 255 from_addr, to_address = [],
                  subject = take 998 subj,
                  body_html_encrypted = html_enc, body_text_encrypted = text_enc,
                  raw_email_encrypted = raw_enc, size_bytes = length raw_email,
                  has_attachments = (atts \<noteq> []), is_read = False, msg_headers = hs\<rparr>
           in if \<not> message_insert_ok d message then Inl IntegrityError
              else
                (case attachment_rows c mid atts of
                   Inl e \<Rightarrow> Inl e
                 | Inr rows \<Rightarrow>
                     if \<not> list_all (\<lambda>a. att_size_bytes a > 0) rows then Inl IntegrityError
                     else Inr (message,
                               d\<lparr>messages := messages d @ [message],
                                 attachments := attachments d @ rows\<rparr>))))))"

section \<open>\<open>EmailProcessor.process_message\<close> (app/smtp/processor.py)\<close>

text \<open>
  The inbox id is read from the Fast Index, the message is taken apart, then
  \<open>store_message\<close> commits the rows and, after it, \<open>increment_message_count\<close> commits
  the counter: two transactions of one session. An exception leaves the method at once,
  with whatever was committed before it.
\<close>

definition process_message ::
  "cipher \<Rightarrow> (pystr \<Rightarrow> pystr option) \<Rightarrow> uuid \<Rightarrow> int \<Rightarrow> string \<Rightarrow> string \<Rightarrow> email_part
     \<Rightarrow> bytes \<Rightarrow> world \<Rightarrow> (exn + unit) \<times> world" where
  "process_message c cleaner mid now recipient sender message raw_content w =
     (case redis_get (rds w) (''inbox:'' @ recipient) of
        Inl e \<Rightarrow> (Inl e, w)
      | Inr None \<Rightarrow> (Inl ValueError, w)
      | Inr (Some inbox_id_str) \<Rightarrow>
          if inbox_id_str = Text [] then (Inl ValueError, w)
          else
            (case UUID inbox_id_str of
               Inl e \<Rightarrow> (Inl e, w)
             | Inr iid \<Rightarrow>
            (case extract_subject message of
               Inl e \<Rightarrow> (Inl e, w)
             | Inr subj \<Rightarrow>
            (case extract_bodies message of
               Inl e \<Rightarrow> (Inl e, w)
             | Inr (body_html, body_text) \<Rightarrow>
            (case extract_headers message of
               Inl e \<Rightarrow> (Inl e, w)
             | Inr hs \<Rightarrow>
            (case extract_attachments message of
               Inl e \<Rightarrow> (Inl e, w)
             | Inr atts \<Rightarrow>
                 (case store_message c cleaner mid (db w) iid sender subj body_html
                         body_text raw_content hs atts of
                    Inl e \<Rightarrow> (Inl e, w)
                  | Inr (m, d) \<Rightarrow>
                      (case increment_message_count now iid (w\<lparr>db := d\<rparr>) of
                         (Inl e, w') \<Rightarrow> (Inl e, w')
                       | (Inr n, w') \<Rightarrow> (Inr (), w')))))))))"

section \<open>\<open>TempMailHandler\<close> (app/smtp/handler.py) and the settings it reads\<close>

record settings =
  MAX_EMAILS_PER_INBOX :: int
  MAX_EMAIL_SIZE_MB :: int
  CLEANUP_BATCH_SIZE :: nat

definition max_email_size_bytes :: "settings \<Rightarrow> int" where
  "max_email_size_bytes st = MAX_EMAIL_SIZE_MB st * 1024 * 1024"

record envelope =
  rcpt_tos :: "string list"
  mail_from :: string
  content :: bytes

definition validate_recipient :: "redis \<Rightarrow> string \<Rightarrow> bool" where
  "validate_recipient r recipient =
     (case redis_get r (''inbox:'' @ recipient) of
        Inl e \<Rightarrow> False
      | Inr inbox_id_str \<Rightarrow> inbox_id_str \<noteq> None)"

text \<open>\<open>int(count)\<close> on what Redis returned.\<close>

fun py_int :: "rval \<Rightarrow> exn + int" where
  "py_int (Num n) = Inr n"
| "py_int (Text s) = Inl ValueError"

definition check_inbox_quota :: "settings \<Rightarrow> redis \<Rightarrow> string \<Rightarrow> bool" where
  "check_inbox_quota st r recipient =
     (case redis_get r (''inbox:count:'' @ recipient) of
        Inl e \<Rightarrow> True
      | Inr None \<Rightarrow> True
      | Inr (Some count) \<Rightarrow>
          (case py_int count of
             Inl e \<Rightarrow> True
           | Inr n \<Rightarrow> n < MAX_EMAILS_PER_INBOX st))"

text \<open>\<open>handle_DATA\<close>: \<open>parse\<close> is \<open>BytesParser(policy=policy.default).parsebytes\<close>.
  The result is the SMTP response and the state the call leaves.\<close>

definition handle_DATA ::
  "settings \<Rightarrow> cipher \<Rightarrow> (pystr \<Rightarrow> pystr option) \<Rightarrow> (bytes \<Rightarrow> exn + email_part) \<Rightarrow> uuid
     \<Rightarrow> int \<Rightarrow> envelope \<Rightarrow> world \<Rightarrow> string \<times> world" where
  "handle_DATA st c cleaner parse mid now env w =
     (case rcpt_tos env of
        [] \<Rightarrow> (''554 No valid recipients'', w)
      | rcpt # _ \<Rightarrow>
          (let recipient = lower rcpt
           in if \<not> validate_recipient (rds w) recipient then
                (''550 Recipient not found or expired'', w)
              else if \<not> check_inbox_quota st (rds w) recipient then
                (''552 Inbox quota exceeded'', w)
              else if int (length (content env)) > max_email_size_bytes st then
                (''552 Message size exceeds maximum'', w)
              else
                (case parse (content env) of
                   Inl e \<Rightarrow> (''451 Error parsing message'', w)
                 | Inr message \<Rightarrow>
                     (case process_message c cleaner mid now recipient (mail_from env)
                             message (content env) w of
                        (Inl e, w') \<Rightarrow>
                          (''451 Requested action aborted: error in processing'', w')
                      | (Inr u, w') \<Rightarrow> (''250 Message accepted for delivery'', w')))))"

section \<open>\<open>TTLCleanupWorker._run_cleanup\<close> (app/workers/ttl_cleanup.py)\<close>








section \<open>Concrete states for the worked examples\<close>

text \<open>An inbox \<open>a@tmp.io\<close> with its Fast Index entry, a stand-in cipher that puts a
  version byte in front of the plaintext, and an envelope addressed to the inbox.\<close>

definition demo_uuid :: uuid where
  "demo_uuid = ''123e4567-e89b-12d3-a456-426614174000''"

definition demo_cipher :: cipher where
  "demo_cipher =
     \<lparr>fenc = (\<lambda>b. 128 # b),
      fdec = (\<lambda>t. case t of [] \<Rightarrow> None | v # b \<Rightarrow> if v = 128 then Some b else None)\<rparr>"

definition demo_inbox :: "int \<Rightarrow> int \<Rightarrow> inbox" where
  "demo_inbox e n =
     \<lparr>inbox_id = demo_uuid, address = ''a@tmp.io'', token_hash = [], created_at = 0,
      expires_at = e, is_active = True, message_count = n\<rparr>"

definition demo_redis :: redis where
  "demo_redis = \<lparr>kv = [''inbox:a@tmp.io'' \<mapsto> Text demo_uuid], unavailable = (\<lambda>k. False)\<rparr>"

definition demo_world :: "int \<Rightarrow> int \<Rightarrow> world" where
  "demo_world e n =
     \<lparr>db = \<lparr>inboxes = [demo_inbox e n], messages = [], attachments = []\<rparr>, rds = demo_redis\<rparr>"

definition demo_settings :: settings where
  "demo_settings = \<lparr>MAX_EMAILS_PER_INBOX = 1, MAX_EMAIL_SIZE_MB = 1, CLEANUP_BATCH_SIZE = 100\<rparr>"

definition demo_envelope :: "bytes \<Rightarrow> envelope" where
  "demo_envelope raw = \<lparr>rcpt_tos = [''A@tmp.io''], mail_from = ''s@x.org'', content = raw\<rparr>"

definition demo_mid :: uuid where
  "demo_mid = ''00000000-0000-4000-8000-000000000001''"

definition demo_message :: email_part where
  "demo_message =
     Leaf [(''Subject'', Value ''hi'')] ''text/plain'' None (Some (ascii ''hello''))
          (ascii ''hello'')"

definition demo_world_down :: "int \<Rightarrow> int \<Rightarrow> world" where
  "demo_world_down e n =
     \<lparr>db = db (demo_world e n), rds = \<lparr>kv = kv demo_redis, unavailable = (\<lambda>k. True)\<rparr>\<rparr>"

section \<open>Reference definitions for the extraction claims, and their examples\<close>

text \<open>First-match-wins as the specification words it: the body of the first part of
  the content type, whatever it is.\<close>

fun spec_first_match :: "string \<Rightarrow> email_part list \<Rightarrow> pystr option" where
  "spec_first_match ct [] = None"
| "spec_first_match ct (p # ps) =
     (if get_content_type p = ct then
        (case part_body p of Inr t \<Rightarrow> Some t | Inl e \<Rightarrow> spec_first_match ct ps)
      else spec_first_match ct ps)"

text \<open>What the loop computes: the body of the first part of the content type whose
  body is not empty, the empty string when every such part is empty, \<open>None\<close> when
  there is no such part.\<close>

fun first_nonempty :: "string \<Rightarrow> email_part list \<Rightarrow> pystr option" where
  "first_nonempty ct [] = None"
| "first_nonempty ct (p # ps) =
     (if get_content_type p = ct then
        (case part_body p of
           Inr t \<Rightarrow>
             if t \<noteq> [] then Some t
             else (case first_nonempty ct ps of None \<Rightarrow> Some [] | Some t' \<Rightarrow> Some t')
         | Inl e \<Rightarrow> first_nonempty ct ps)
      else first_nonempty ct ps)"

definition carry :: "pystr option \<Rightarrow> pystr option \<Rightarrow> pystr option" where
  "carry acc r = (if not_body acc then (case r of None \<Rightarrow> acc | Some x \<Rightarrow> Some x) else acc)"

definition demo_two_plain :: email_part where
  "demo_two_plain =
     Multi [] Multipart ''mixed'' None
       [Leaf [] ''text/plain'' None (Some []) [],
        Leaf [] ''text/plain'' None (Some (ascii ''second'')) (ascii ''second'')]"

text \<open>The allow-list as the specification gives it.\<close>

definition spec_allow_list :: "string list" where
  "spec_allow_list =
     [''From'', ''To'', ''Cc'', ''Subject'', ''Date'', ''Message-ID'', ''In-Reply-To'',
      ''References'', ''Return-Path'', ''Reply-To'']"

definition demo_bcc :: email_part where
  "demo_bcc =
     Leaf [(''Bcc'', Value ''x@y.z''), (''X-Mailer'', Value ''m''), (''To'', Value [])]
          ''text/plain'' None (Some (ascii ''hello'')) (ascii ''hello'')"

text \<open>The value the loop stores for a header name, if it stores one.\<close>

definition header_entry :: "(string \<times> header_value) list \<Rightarrow> string \<Rightarrow> string option" where
  "header_entry hs name =
     (case msg_get hs name of
        Inr (Some v) \<Rightarrow> if v \<noteq> [] then Some v else None
      | _ \<Rightarrow> None)"


text \<open>What \<open>parsebytes\<close> makes of \<open>From: "\<close>, \<open>Subject: hi\<close> and the body
  \<open>hello\<close>: a message whose \<open>From\<close> header raises an \<open>IndexError\<close> when it is
  accessed. And a multipart message with a text part, a part whose
  \<open>Content-Disposition\<close> raises in the same way, and a well-formed attachment.\<close>

definition demo_bad_from :: email_part where
  "demo_bad_from =
     Leaf [(''From'', RaisesIndexError), (''Subject'', Value ''hi'')] ''text/plain'' None
          (Some (ascii ''hello'')) (ascii ''hello'')"






section \<open>The size check of \<open>handle_DATA\<close>\<close>

lemma demo_validate: "validate_recipient demo_redis (lower ''A@tmp.io'')"
  by code_simp

lemma demo_quota: "check_inbox_quota demo_settings demo_redis (lower ''A@tmp.io'')"
  by code_simp

text \<open>
  Claim C8. For a delivery that has passed the recipient and quota checks, a content of
  exactly \<open>max_email_size_bytes\<close> bytes goes on to the parser and to
  \<open>process_message\<close>, and a content of one byte more or longer is answered with
  \<open>552 Message size exceeds maximum\<close>, whatever the parser is: it is not consulted, and
  the state is left as it was.
\<close>

theorem size_check_boundary:
  assumes "rcpt_tos env = rcpt # rest"
    and "validate_recipient (rds w) (lower rcpt)"
    and "check_inbox_quota st (rds w) (lower rcpt)"
  shows "(int (length (content env)) = max_email_size_bytes st \<longrightarrow>
            handle_DATA st c cleaner parse mid now env w =
              (case parse (content env) of
                 Inl e \<Rightarrow> (''451 Error parsing message'', w)
               | Inr message \<Rightarrow>
                   (case process_message c cleaner mid now (lower rcpt) (mail_from env)
                           message (content env) w of
                      (Inl e, w') \<Rightarrow> (''451 Requested action aborted: error in processing'', w')
                    | (Inr u, w') \<Rightarrow> (''250 Message accepted for delivery'', w'))))
       \<and> (int (length (content env)) > max_email_size_bytes st \<longrightarrow>
            handle_DATA st c cleaner parse mid now env w =
              (''552 Message size exceeds maximum'', w))"
  using assms by (simp add: handle_DATA_def Let_def)

theorem size_check_boundary_witness:
  "validate_recipient (rds (demo_world 10 0)) (lower ''A@tmp.io'')
   \<and> check_inbox_quota demo_settings (rds (demo_world 10 0)) (lower ''A@tmp.io'')
   \<and> max_email_size_bytes demo_settings = 1048576
   \<and> handle_DATA demo_settings demo_cipher Some (\<lambda>b. Inl ParseError) ''m1'' 5
        (demo_envelope (replicate 1048576 65)) (demo_world 10 0)
       = (''451 Error parsing message'', demo_world 10 0)
   \<and> handle_DATA demo_settings demo_cipher Some (\<lambda>b. Inl ParseError) ''m1'' 5
        (demo_envelope (replicate 1048577 65)) (demo_world 10 0)
       = (''552 Message size exceeds maximum'', demo_world 10 0)"
proof -
  have r: "rds (demo_world 10 0) = demo_redis" by (simp add: demo_world_def)
  have m: "max_email_size_bytes demo_settings = 1048576"
    by (simp add: max_email_size_bytes_def demo_settings_def)
  have e: "rcpt_tos (demo_envelope raw) = ''A@tmp.io'' # []" for raw
    by (simp add: demo_envelope_def)
  have v: "validate_recipient (rds (demo_world 10 0)) (lower ''A@tmp.io'')"
    unfolding r by (rule demo_validate)
  have q: "check_inbox_quota demo_settings (rds (demo_world 10 0)) (lower ''A@tmp.io'')"
    unfolding r by (rule demo_quota)
  have a: "content (demo_envelope raw) = raw" for raw by (simp add: demo_envelope_def)
  show ?thesis
    using size_check_boundary [OF e v q, of "replicate 1048576 65" demo_cipher Some "\<lambda>b. Inl ParseError" "''m1''" 5]
          size_check_boundary [OF e v q, of "replicate 1048577 65" demo_cipher Some "\<lambda>b. Inl ParseError" "''m1''" 5]
          v q m
    by (simp add: a)
qed

section \<open>Evaluating the worked examples\<close>

lemma demo_UUID: "UUID (Text demo_uuid) = Inr demo_uuid"
  by code_simp

lemma demo_lower: "lower ''A@tmp.io'' = ''a@tmp.io''"
  by code_simp

lemma demo_uuid_neq: "demo_uuid \<noteq> []" by (simp add: demo_uuid_def)

lemma demo_bodies: "extract_bodies demo_message = Inr (None, Some (ascii ''hello''))"
  by (simp add: extract_bodies_def demo_message_def part_body_def)

lemma demo_headers: "extract_headers demo_message = Inr [(''Subject'', ''hi'')]"
  by code_simp

lemma demo_subject: "extract_subject demo_message = Inr ''hi''"
  by code_simp

lemma demo_atts: "extract_attachments demo_message = Inr []"
  by (simp add: extract_attachments_def demo_message_def)

lemma demo_store:
  "\<exists>m. store_message demo_cipher Some demo_mid (db (demo_world e n)) demo_uuid ''s@x.org'' ''hi''
          None (Some (ascii ''hello'')) (ascii ''hello'') [(''Subject'', ''hi'')] []
       = Inr (m, \<lparr>inboxes = [demo_inbox e n], messages = [m], attachments = []\<rparr>)
     \<and> message_id m = demo_mid"
  by (simp add: store_message_def encrypt_html_def encrypt_opt_def encrypt_def demo_cipher_def
        utf8_decode_replace_def ascii_def message_insert_ok_def demo_world_def demo_inbox_def Let_def)

section \<open>What the extraction, the store and the counter can return\<close>

lemma find_map_inbox:
  "find P (map f xs) = map_option f (find (\<lambda>x. P (f x)) xs)"
  by (induction xs) auto

lemma get_inbox_set_message_count:
  "get_inbox now d iid = Some i \<Longrightarrow>
   get_inbox now (set_message_count iid n d) iid = Some (i\<lparr>message_count := n\<rparr>)"
  by (auto simp: get_inbox_def set_message_count_def find_map_inbox
        split: option.splits if_splits dest: find_Some_iff[THEN iffD1]
        intro!: arg_cong[where f="map_option _"])

lemma multi_ctype_not_text:
  "get_content_type (Multi h k sub fn ps) \<noteq> ''text/plain''"
  "get_content_type (Multi h k sub fn ps) \<noteq> ''text/html''"
  by (cases k; simp)+

lemma part_body_Leaf: "part_body (Leaf h ct fn c p) \<noteq> Inl e"
  by (cases c) (simp_all add: part_body_def)

lemma bodies_step_total: "\<exists>acc'. bodies_step acc part = Inr acc'"
proof (cases part)
  case (Leaf h ct fn c p)
  then show ?thesis
    by (auto simp: bodies_step_def Let_def part_body_Leaf split: sum.splits)
next
  case (Multi h k sub fn ps)
  then show ?thesis using multi_ctype_not_text[of h k sub fn ps]
    by (simp add: bodies_step_def Let_def)
qed

lemma bodies_loop_total: "\<exists>r. bodies_loop acc parts = Inr r"
proof (induction parts arbitrary: acc)
  case Nil
  show ?case by simp
next
  case (Cons p ps)
  obtain acc' where "bodies_step acc p = Inr acc'" using bodies_step_total by blast
  then show ?case using Cons.IH[of acc'] by simp
qed

lemma extract_bodies_total: "\<exists>r. extract_bodies message = Inr r"
proof (cases message)
  case (Leaf h ct fn c p)
  then show ?thesis
    by (auto simp: extract_bodies_def Let_def part_body_Leaf split: sum.splits)
next
  case (Multi h k sub fn ps)
  then show ?thesis
    using bodies_loop_total[of "(None, None)" "walk message"]
    by (simp add: extract_bodies_def del: walk.simps bodies_loop.simps)
qed

lemma encrypt_error: "encrypt c s = Inl e \<Longrightarrow> e = EncryptionException"
  by (auto simp: encrypt_def split: option.splits)

lemma encrypt_opt_error: "encrypt_opt c b = Inl e \<Longrightarrow> e = EncryptionException"
  by (auto simp: encrypt_opt_def split: if_splits sum.splits dest: encrypt_error)

lemma attachment_rows_error: "attachment_rows c mid atts = Inl e \<Longrightarrow> e = EncryptionException"
  by (induction atts arbitrary: e) (auto split: sum.splits dest: encrypt_error)

lemma attachment_rows_Inr:
  "attachment_rows c mid atts = Inr rows \<Longrightarrow>
   length rows = length atts \<and> list_all (\<lambda>a. att_message_id a = mid) rows"
  by (induction atts arbitrary: rows) (auto split: sum.splits)

lemma sanitize_html_error: "sanitize_html cleaner html = Inl e \<Longrightarrow> e = SanitizationException"
  by (auto simp: sanitize_html_def split: if_splits option.splits)

lemma encrypt_html_error:
  "encrypt_html c cleaner b = Inl e \<Longrightarrow> e = EncryptionException \<or> e = SanitizationException"
  by (auto simp: encrypt_html_def split: if_splits sum.splits
        dest: encrypt_error sanitize_html_error)

lemma store_message_error:
  "store_message c cleaner mid d iid from_addr subj bh bt raw hs atts = Inl e \<Longrightarrow>
   e = EncryptionException \<or> e = IntegrityError \<or> e = SanitizationException"
  by (auto simp: store_message_def Let_def split: sum.splits if_splits
        dest: encrypt_error encrypt_opt_error encrypt_html_error attachment_rows_error)

lemma msg_get_error: "msg_get hs name = Inl e \<Longrightarrow> e = IndexError \<or> e = AttributeError"
proof (induction hs)
  case Nil
  then show ?case by simp
next
  case (Cons kv hs)
  obtain k v where kv: "kv = (k, v)" by (cases kv)
  show ?case
    using Cons kv by (cases v) (auto split: if_splits)
qed

lemma extract_subject_error:
  "extract_subject message = Inl e \<Longrightarrow> e = IndexError \<or> e = AttributeError"
  by (auto simp: extract_subject_def split: sum.splits option.splits dest: msg_get_error)

lemma headers_loop_error:
  "headers_loop hs names acc = Inl e \<Longrightarrow> e = IndexError \<or> e = AttributeError"
  by (induction names arbitrary: acc)
     (auto split: sum.splits option.splits if_splits dest: msg_get_error)

lemma extract_headers_error:
  "extract_headers message = Inl e \<Longrightarrow> e = IndexError \<or> e = AttributeError"
  by (auto simp: extract_headers_def dest: headers_loop_error)

lemma attachment_of_error:
  "attachment_of part = Inl e \<Longrightarrow> e = IndexError \<or> e = AttributeError"
  by (auto simp: attachment_of_def get_filename_def
        split: sum.splits option.splits if_splits dest: msg_get_error)

lemma attachments_loop_error:
  "attachments_loop parts acc = Inl e \<Longrightarrow> e = IndexError \<or> e = AttributeError"
  by (induction parts arbitrary: acc)
     (auto split: sum.splits option.splits dest: attachment_of_error)

lemma extract_attachments_error:
  "extract_attachments message = Inl e \<Longrightarrow> e = IndexError \<or> e = AttributeError"
  by (auto simp: extract_attachments_def split: if_splits dest: attachments_loop_error)

lemma store_message_Inr:
  "store_message c cleaner mid d iid from_addr subj bh bt raw hs atts = Inr (m, d') \<Longrightarrow>
   message_id m = mid \<and> msg_inbox_id m = iid \<and> inboxes d' = inboxes d
   \<and> messages d' = messages d @ [m]
   \<and> (\<exists>rows. attachment_rows c mid atts = Inr rows \<and> attachments d' = attachments d @ rows)"
  by (auto simp: store_message_def Let_def split: sum.splits if_splits)

lemma increment_cases:
  "increment_message_count now iid w = (r, w') \<Longrightarrow>
   (get_inbox now (db w) iid = None \<and> r = Inl InboxNotFoundException \<and> w' = w)
   \<or> (\<exists>i. get_inbox now (db w) iid = Some i
          \<and> db w' = set_message_count iid (message_count i + 1) (db w)
          \<and> (r = Inl RedisError \<or> r = Inr (message_count i + 1)))"
  by (auto simp: increment_message_count_def Let_def redis_incr_def
        split: option.splits prod.splits sum.splits if_splits rval.splits)

lemma get_inbox_cong: "inboxes d' = inboxes d \<Longrightarrow> get_inbox now d' iid = get_inbox now d iid"
  by (simp add: get_inbox_def)

lemma process_message_error:
  "fst (process_message c cleaner mid now recipient sender message raw w) = Inl e \<Longrightarrow>
   e \<in> {RedisError, ValueError, IndexError, AttributeError, SanitizationException,
        EncryptionException, IntegrityError, InboxNotFoundException}"
proof -
  assume a: "fst (process_message c cleaner mid now recipient sender message raw w) = Inl e"
  obtain bh bt where b: "extract_bodies message = Inr (bh, bt)"
    using extract_bodies_total[of message] by (cases "extract_bodies message") auto
  show ?thesis
    using a b
    by (auto simp: process_message_def redis_get_def UUID_def
          split: sum.splits option.splits if_splits prod.splits rval.splits
          dest!: store_message_error increment_cases extract_subject_error
            extract_headers_error extract_attachments_error)
qed

lemma demo_process_ok:
  "fst (process_message demo_cipher Some demo_mid 5 ''a@tmp.io'' ''s@x.org'' demo_message
          (ascii ''hello'') (demo_world 10 0)) = Inr ()"
proof -
  obtain m where m: "store_message demo_cipher Some demo_mid (db (demo_world 10 0)) demo_uuid ''s@x.org'' ''hi''
          None (Some (ascii ''hello'')) (ascii ''hello'') [(''Subject'', ''hi'')] []
       = Inr (m, \<lparr>inboxes = [demo_inbox 10 0], messages = [m], attachments = []\<rparr>)"
    using demo_store by blast
  have g: "redis_get (rds (demo_world 10 0)) (''inbox:'' @ ''a@tmp.io'') = Inr (Some (Text demo_uuid))"
    by (simp add: redis_get_def demo_world_def demo_redis_def)
  have i: "fst (increment_message_count 5 demo_uuid
             ((demo_world 10 0)\<lparr>db := \<lparr>inboxes = [demo_inbox 10 0], messages = [m], attachments = []\<rparr>\<rparr>))
           = Inr 1"
    by (simp add: increment_message_count_def get_inbox_def demo_world_def demo_inbox_def
          set_message_count_def redis_incr_def demo_redis_def Let_def)
  obtain r w' where rw: "increment_message_count 5 demo_uuid
             ((demo_world 10 0)\<lparr>db := \<lparr>inboxes = [demo_inbox 10 0], messages = [m], attachments = []\<rparr>\<rparr>)
           = (r, w')"
    by (cases "increment_message_count 5 demo_uuid
             ((demo_world 10 0)\<lparr>db := \<lparr>inboxes = [demo_inbox 10 0], messages = [m], attachments = []\<rparr>\<rparr>)")
  with i have r: "r = Inr 1" by simp
  show ?thesis
    using g m rw r
    by (simp add: process_message_def demo_UUID demo_uuid_neq demo_bodies demo_headers
          demo_subject demo_atts)
qed

section \<open>Admission when the Fast Index fails\<close>

text \<open>
  Claim C7, as stated, fails. The inbox \<open>a@tmp.io\<close> is in the Durable Store and has
  not expired, and with the Fast Index up the delivery is accepted; with every Fast
  Index call raising, \<open>_validate_recipient\<close> returns \<open>False\<close> in its \<open>except\<close> branch
  and the delivery is answered \<open>550\<close>. No lookup in the Durable Store is made.
\<close>

theorem fast_index_down_counterexample:
  "map_option address (get_inbox 5 (db (demo_world_down 10 0)) demo_uuid) = Some ''a@tmp.io''
   \<and> fst (handle_DATA demo_settings demo_cipher Some (\<lambda>b. Inr demo_message) demo_mid 5
            (demo_envelope (ascii ''hello'')) (demo_world 10 0))
       = ''250 Message accepted for delivery''
   \<and> fst (handle_DATA demo_settings demo_cipher Some (\<lambda>b. Inr demo_message) demo_mid 5
            (demo_envelope (ascii ''hello'')) (demo_world_down 10 0))
       = ''550 Recipient not found or expired''"
proof -
  have a: "map_option address (get_inbox 5 (db (demo_world_down 10 0)) demo_uuid) = Some ''a@tmp.io''"
    by (simp add: get_inbox_def demo_world_down_def demo_world_def demo_inbox_def)
  have v: "validate_recipient (rds (demo_world 10 0)) ''a@tmp.io''"
    using demo_validate by (simp add: demo_lower demo_world_def)
  have q: "check_inbox_quota demo_settings (rds (demo_world 10 0)) ''a@tmp.io''"
    using demo_quota by (simp add: demo_lower demo_world_def)
  have s: "\<not> int (length (ascii ''hello'')) > max_email_size_bytes demo_settings"
    by (simp add: ascii_def max_email_size_bytes_def demo_settings_def)
  have b: "fst (handle_DATA demo_settings demo_cipher Some (\<lambda>b. Inr demo_message) demo_mid 5
            (demo_envelope (ascii ''hello'')) (demo_world 10 0))
       = ''250 Message accepted for delivery''"
  proof -
    obtain r w' where rw: "process_message demo_cipher Some demo_mid 5 ''a@tmp.io'' ''s@x.org''
            demo_message (ascii ''hello'') (demo_world 10 0) = (r, w')"
      by (cases "process_message demo_cipher Some demo_mid 5 ''a@tmp.io'' ''s@x.org''
            demo_message (ascii ''hello'') (demo_world 10 0)")
    with demo_process_ok have "r = Inr ()" by simp
    with rw v q s show ?thesis
      by (simp add: handle_DATA_def demo_envelope_def demo_lower Let_def)
  qed
  have c: "fst (handle_DATA demo_settings demo_cipher Some (\<lambda>b. Inr demo_message) demo_mid 5
            (demo_envelope (ascii ''hello'')) (demo_world_down 10 0))
       = ''550 Recipient not found or expired''"
    by (simp add: handle_DATA_def demo_envelope_def Let_def validate_recipient_def
          redis_get_def demo_world_down_def)
  show ?thesis using a b c by simp
qed

text \<open>
  Claim C7, amended. When the Fast Index lookup of the recipient raises, \<open>handle_DATA\<close>
  answers \<open>550 Recipient not found or expired\<close> and leaves the state as it was,
  whatever the Durable Store holds. When that lookup succeeds and only the lookup of the
  counter raises, the quota check lets the delivery through.
\<close>

theorem fast_index_failure_at_admission:
  assumes "rcpt_tos env = rcpt # rest"
  shows "(unavailable (rds w) (''inbox:'' @ lower rcpt) \<longrightarrow>
            handle_DATA st c cleaner parse mid now env w
              = (''550 Recipient not found or expired'', w))
       \<and> (\<not> unavailable (rds w) (''inbox:'' @ lower rcpt)
            \<and> kv (rds w) (''inbox:'' @ lower rcpt) \<noteq> None
            \<and> unavailable (rds w) (''inbox:count:'' @ lower rcpt) \<longrightarrow>
            validate_recipient (rds w) (lower rcpt)
            \<and> check_inbox_quota st (rds w) (lower rcpt))"
  using assms
  by (simp add: handle_DATA_def Let_def validate_recipient_def check_inbox_quota_def
        redis_get_def)

theorem fast_index_failure_at_admission_witness:
  "rcpt_tos (demo_envelope (ascii ''hello'')) = ''A@tmp.io'' # []
   \<and> unavailable (rds (demo_world_down 10 0)) (''inbox:'' @ lower ''A@tmp.io'')
   \<and> handle_DATA demo_settings demo_cipher Some (\<lambda>b. Inr demo_message) demo_mid 5
        (demo_envelope (ascii ''hello'')) (demo_world_down 10 0)
       = (''550 Recipient not found or expired'', demo_world_down 10 0)"
proof -
  have e: "rcpt_tos (demo_envelope (ascii ''hello'')) = ''A@tmp.io'' # []"
    by (simp add: demo_envelope_def)
  have u: "unavailable (rds (demo_world_down 10 0)) k" for k
    by (simp add: demo_world_down_def)
  show ?thesis
    using fast_index_failure_at_admission [OF e, of "demo_world_down 10 0" demo_settings
            demo_cipher Some "\<lambda>b. Inr demo_message" demo_mid 5] e u
    by simp
qed

section \<open>The counter and the quota\<close>

text \<open>
  Claim C1, as stated, fails. With a quota of 1 and a durable \<open>message_count\<close> of 1,
  \<open>process_message\<close> returns normally, the message row is committed and the count
  becomes 2.
\<close>

theorem quota_not_enforced_counterexample:
  "MAX_EMAILS_PER_INBOX demo_settings = 1
   \<and> map message_count (inboxes (db (demo_world 10 1))) = [1]
   \<and> (case process_message demo_cipher Some demo_mid 5 ''a@tmp.io'' ''s@x.org'' demo_message
             (ascii ''hello'') (demo_world 10 1) of
        (r, w') \<Rightarrow> r = Inr ()
                  \<and> map message_id (messages (db w')) = [demo_mid]
                  \<and> map message_count (inboxes (db w')) = [2])"
proof -
  obtain m where m: "store_message demo_cipher Some demo_mid (db (demo_world 10 1)) demo_uuid ''s@x.org'' ''hi''
          None (Some (ascii ''hello'')) (ascii ''hello'') [(''Subject'', ''hi'')] []
       = Inr (m, \<lparr>inboxes = [demo_inbox 10 1], messages = [m], attachments = []\<rparr>)"
     and mid: "message_id m = demo_mid"
    using demo_store by blast
  have g: "redis_get (rds (demo_world 10 1)) (''inbox:'' @ ''a@tmp.io'') = Inr (Some (Text demo_uuid))"
    by (simp add: redis_get_def demo_world_def demo_redis_def)
  have i: "increment_message_count 5 demo_uuid
             ((demo_world 10 1)\<lparr>db := \<lparr>inboxes = [demo_inbox 10 1], messages = [m], attachments = []\<rparr>\<rparr>)
           = (Inr 2, \<lparr>db = \<lparr>inboxes = [demo_inbox 10 2], messages = [m], attachments = []\<rparr>,
                      rds = demo_redis\<lparr>kv := (kv demo_redis)(''inbox:count:a@tmp.io'' \<mapsto> Num 1)\<rparr>\<rparr>)"
    by (simp add: increment_message_count_def get_inbox_def demo_world_def demo_inbox_def
          set_message_count_def redis_incr_def demo_redis_def Let_def)
  show ?thesis
    using g m i mid
    by (simp add: process_message_def demo_UUID demo_uuid_neq demo_bodies demo_headers
          demo_subject demo_atts demo_settings_def demo_world_def demo_inbox_def)
qed

text \<open>
  Claim C1, amended. \<open>increment_message_count\<close> raises the durable count of an inbox
  that exists and has not expired by exactly one, whatever the count was, and
  \<open>process_message\<close> never fails with \<open>QuotaExceededException\<close>: the persistence
  pipeline makes no quota check, the only one is the handler's reading of the Fast Index
  counter at admission.
\<close>

theorem increment_is_unconditional:
  assumes "get_inbox now (db w) iid = Some i"
  shows "map_option message_count
           (get_inbox now (db (snd (increment_message_count now iid w))) iid)
         = Some (message_count i + 1)
       \<and> fst (process_message c cleaner mid now' recipient sender message raw w0)
           \<noteq> Inl QuotaExceededException"
proof -
  obtain r w' where rw: "increment_message_count now iid w = (r, w')"
    by (cases "increment_message_count now iid w")
  from increment_cases[OF rw] assms
  have "db w' = set_message_count iid (message_count i + 1) (db w)" by auto
  then have 1: "map_option message_count (get_inbox now (db w') iid) = Some (message_count i + 1)"
    using get_inbox_set_message_count[OF assms, of "message_count i + 1"] by simp
  have 2: "fst (process_message c cleaner mid now' recipient sender message raw w0)
           \<noteq> Inl QuotaExceededException"
    using process_message_error[of c cleaner mid now' recipient sender message raw w0 QuotaExceededException]
    by auto
  show ?thesis using 1 2 rw by simp
qed

theorem increment_is_unconditional_witness:
  "get_inbox 5 (db (demo_world 10 1)) demo_uuid = Some (demo_inbox 10 1)
   \<and> MAX_EMAILS_PER_INBOX demo_settings \<le> message_count (demo_inbox 10 1)
   \<and> map_option message_count
        (get_inbox 5 (db (snd (increment_message_count 5 demo_uuid (demo_world 10 1)))) demo_uuid)
      = Some 2"
proof -
  have g: "get_inbox 5 (db (demo_world 10 1)) demo_uuid = Some (demo_inbox 10 1)"
    by (simp add: get_inbox_def demo_world_def demo_inbox_def)
  have c: "message_count (demo_inbox 10 1) = 1" by (simp add: demo_inbox_def)
  show ?thesis
    using increment_is_unconditional [OF g, of demo_cipher Some demo_mid 5 "''a@tmp.io''"
            "''s@x.org''" demo_message "ascii ''hello''" "demo_world 10 1"] g c
    by (simp add: demo_settings_def)
qed

section \<open>Message rows and the counter\<close>

lemma UUID_Text_nonempty: "UUID (Text s) = Inr iid \<Longrightarrow> s \<noteq> []"
  by (auto simp: UUID_def split: if_splits)

text \<open>
  Claim C2, as stated, fails. The inbox \<open>a@tmp.io\<close> expired at 3 and its Fast Index
  entry is still there at 5 (the entry's time to live starts after the row's). Then
  \<open>store_message\<close> commits the message row, \<open>increment_message_count\<close> finds no
  unexpired inbox and raises, and the row stays committed with the count still 0.
\<close>

theorem message_without_counter_counterexample:
  "(case process_message demo_cipher Some demo_mid 5 ''a@tmp.io'' ''s@x.org'' demo_message
           (ascii ''hello'') (demo_world 3 0) of
      (r, w') \<Rightarrow> r = Inl InboxNotFoundException
                \<and> map message_id (messages (db w')) = [demo_mid]
                \<and> map msg_inbox_id (messages (db w')) = [demo_uuid]
                \<and> map inbox_id (inboxes (db w')) = [demo_uuid]
                \<and> map message_count (inboxes (db w')) = [0])"
proof -
  obtain m where m: "store_message demo_cipher Some demo_mid (db (demo_world 3 0)) demo_uuid ''s@x.org'' ''hi''
          None (Some (ascii ''hello'')) (ascii ''hello'') [(''Subject'', ''hi'')] []
       = Inr (m, \<lparr>inboxes = [demo_inbox 3 0], messages = [m], attachments = []\<rparr>)"
     and mid: "message_id m = demo_mid"
    using demo_store by blast
  have iid: "msg_inbox_id m = demo_uuid"
    using store_message_Inr[OF m] by simp
  have g: "redis_get (rds (demo_world 3 0)) (''inbox:'' @ ''a@tmp.io'') = Inr (Some (Text demo_uuid))"
    by (simp add: redis_get_def demo_world_def demo_redis_def)
  have i: "increment_message_count 5 demo_uuid
             ((demo_world 3 0)\<lparr>db := \<lparr>inboxes = [demo_inbox 3 0], messages = [m], attachments = []\<rparr>\<rparr>)
           = (Inl InboxNotFoundException,
              (demo_world 3 0)\<lparr>db := \<lparr>inboxes = [demo_inbox 3 0], messages = [m], attachments = []\<rparr>\<rparr>)"
    by (simp add: increment_message_count_def get_inbox_def demo_inbox_def)
  show ?thesis
    using g m i mid iid
    by (simp add: process_message_def demo_UUID demo_uuid_neq demo_bodies demo_headers
          demo_subject demo_atts demo_inbox_def)
qed

text \<open>
  Claim C2, amended. Take a delivery that reaches \<open>store_message\<close>: the inbox id was
  read and the message was taken apart. When \<open>store_message\<close> raises, nothing is
  committed and \<open>process_message\<close> raises the same. When it returns, the message row
  and one attachment row for each attachment are committed together; the counter is a
  second transaction after that one. If \<open>increment_message_count\<close> then finds no
  unexpired inbox, \<open>process_message\<close> raises \<open>InboxNotFoundException\<close>, the rows
  stay and the counter is as it was; otherwise the counter of the inbox is raised by
  one.
\<close>

theorem message_and_counter_commit_separately:
  assumes "redis_get (rds w) (''inbox:'' @ recipient) = Inr (Some (Text s))"
    and "UUID (Text s) = Inr iid"
    and "extract_subject message = Inr subj"
    and "extract_bodies message = Inr (bh, bt)"
    and "extract_headers message = Inr hs"
    and "extract_attachments message = Inr atts"
    and "process_message c cleaner mid now recipient sender message raw w = (r, w')"
  shows "(\<forall>e. store_message c cleaner mid (db w) iid sender subj bh bt raw hs atts = Inl e
             \<longrightarrow> r = Inl e \<and> w' = w)
       \<and> (\<forall>m d. store_message c cleaner mid (db w) iid sender subj bh bt raw hs atts
                   = Inr (m, d) \<longrightarrow>
             messages (db w') = messages (db w) @ [m]
           \<and> message_id m = mid \<and> msg_inbox_id m = iid
           \<and> (\<exists>rows. attachment_rows c mid atts = Inr rows
                  \<and> length rows = length atts
                  \<and> attachments (db w') = attachments (db w) @ rows)
           \<and> (get_inbox now (db w) iid = None \<longrightarrow>
                 r = Inl InboxNotFoundException \<and> inboxes (db w') = inboxes (db w))
           \<and> (\<forall>i. get_inbox now (db w) iid = Some i \<longrightarrow>
                 (r = Inr () \<or> r = Inl RedisError)
               \<and> inboxes (db w')
                   = inboxes (set_message_count iid (message_count i + 1) (db w))))"
proof -
  have ne: "Text s \<noteq> Text []" using UUID_Text_nonempty[OF assms(2)] by simp
  have fail: "r = Inl e \<and> w' = w"
    if "store_message c cleaner mid (db w) iid sender subj bh bt raw hs atts = Inl e" for e
    using assms that ne by (simp add: process_message_def)
  have ok: "messages (db w') = messages (db w) @ [m]
           \<and> message_id m = mid \<and> msg_inbox_id m = iid
           \<and> (\<exists>rows. attachment_rows c mid atts = Inr rows
                  \<and> length rows = length atts
                  \<and> attachments (db w') = attachments (db w) @ rows)
           \<and> (get_inbox now (db w) iid = None \<longrightarrow>
                 r = Inl InboxNotFoundException \<and> inboxes (db w') = inboxes (db w))
           \<and> (\<forall>i. get_inbox now (db w) iid = Some i \<longrightarrow>
                 (r = Inr () \<or> r = Inl RedisError)
               \<and> inboxes (db w')
                   = inboxes (set_message_count iid (message_count i + 1) (db w)))"
    if st: "store_message c cleaner mid (db w) iid sender subj bh bt raw hs atts = Inr (m, d)"
    for m d
  proof -
    obtain r2 w2 where i: "increment_message_count now iid (w\<lparr>db := d\<rparr>) = (r2, w2)"
      by (cases "increment_message_count now iid (w\<lparr>db := d\<rparr>)")
    have w': "w' = w2" and r: "(case r2 of Inl e \<Rightarrow> r = Inl e | Inr n \<Rightarrow> r = Inr ())"
      using assms st i ne by (auto simp: process_message_def split: sum.splits)
    from store_message_Inr[OF st] obtain rows where
      sm: "message_id m = mid" "msg_inbox_id m = iid" "inboxes d = inboxes (db w)"
          "messages d = messages (db w) @ [m]"
          "attachment_rows c mid atts = Inr rows"
          "attachments d = attachments (db w) @ rows"
      by blast
    have len: "length rows = length atts"
      using attachment_rows_Inr[OF sm(5)] by simp
    have gi: "get_inbox now d iid = get_inbox now (db w) iid"
      using sm(3) by (rule get_inbox_cong)
    from increment_cases[OF i]
    show ?thesis
    proof
      assume a: "get_inbox now (db (w\<lparr>db := d\<rparr>)) iid = None \<and> r2 = Inl InboxNotFoundException
              \<and> w2 = w\<lparr>db := d\<rparr>"
      then have "get_inbox now (db w) iid = None" using gi by simp
      then show ?thesis using a sm len w' r by auto
    next
      assume "\<exists>i. get_inbox now (db (w\<lparr>db := d\<rparr>)) iid = Some i
          \<and> db w2 = set_message_count iid (message_count i + 1) (db (w\<lparr>db := d\<rparr>))
          \<and> (r2 = Inl RedisError \<or> r2 = Inr (message_count i + 1))"
      then obtain i where
        a: "get_inbox now d iid = Some i"
           "db w2 = set_message_count iid (message_count i + 1) d"
           "r2 = Inl RedisError \<or> r2 = Inr (message_count i + 1)"
        by auto
      have b: "messages (db w2) = messages d" "attachments (db w2) = attachments d"
           "inboxes (db w2) = inboxes (set_message_count iid (message_count i + 1) (db w))"
        using a(2) sm(3) by (simp_all add: set_message_count_def)
      have c: "r = Inr () \<or> r = Inl RedisError" using a(3) r by auto
      have g: "get_inbox now (db w) iid = Some i" using a(1) gi by simp
      show ?thesis using sm len w' b c g by auto
    qed
  qed
  show ?thesis using fail ok by blast
qed

theorem message_and_counter_commit_separately_witness:
  "(case process_message demo_cipher Some demo_mid 5 ''a@tmp.io'' ''s@x.org'' demo_message
           (ascii ''hello'') (demo_world 3 0) of
      (r, w') \<Rightarrow> r = Inl InboxNotFoundException
                \<and> map message_id (messages (db w')) = [demo_mid]
                \<and> attachments (db w') = []
                \<and> inboxes (db w') = [demo_inbox 3 0])
   \<and> (case process_message demo_cipher Some demo_mid 5 ''a@tmp.io'' ''s@x.org'' demo_message
           (ascii ''hello'') (demo_world 10 0) of
      (r, w') \<Rightarrow> r = Inr ()
                \<and> map message_id (messages (db w')) = [demo_mid]
                \<and> attachments (db w') = []
                \<and> inboxes (db w') = [demo_inbox 10 1])"
proof -
  have g: "redis_get (rds (demo_world e 0)) (''inbox:'' @ ''a@tmp.io'') = Inr (Some (Text demo_uuid))"
    for e by (simp add: redis_get_def demo_world_def demo_redis_def)
  have d: "messages (db (demo_world e 0)) = []" "attachments (db (demo_world e 0)) = []"
          "inboxes (db (demo_world e 0)) = [demo_inbox e 0]" for e
    by (simp_all add: demo_world_def)
  have a: "attachment_rows demo_cipher demo_mid [] = Inr rows \<Longrightarrow> rows = []" for rows
    by simp
  have 1: "r = Inl InboxNotFoundException
           \<and> map message_id (messages (db w')) = [demo_mid]
           \<and> attachments (db w') = []
           \<and> inboxes (db w') = [demo_inbox 3 0]"
    if rw: "process_message demo_cipher Some demo_mid 5 ''a@tmp.io'' ''s@x.org'' demo_message
              (ascii ''hello'') (demo_world 3 0) = (r, w')" for r w'
  proof -
    obtain m where m: "store_message demo_cipher Some demo_mid (db (demo_world 3 0)) demo_uuid
          ''s@x.org'' ''hi'' None (Some (ascii ''hello'')) (ascii ''hello'') [(''Subject'', ''hi'')] []
        = Inr (m, \<lparr>inboxes = [demo_inbox 3 0], messages = [m], attachments = []\<rparr>)"
      using demo_store by blast
    have gi: "get_inbox 5 (db (demo_world 3 0)) demo_uuid = None"
      by (simp add: get_inbox_def demo_world_def demo_inbox_def)
    show ?thesis
      using message_and_counter_commit_separately
              [OF g demo_UUID demo_subject demo_bodies demo_headers demo_atts rw] m gi d a
      by auto
  qed
  have 2: "r = Inr ()
           \<and> map message_id (messages (db w')) = [demo_mid]
           \<and> attachments (db w') = []
           \<and> inboxes (db w') = [demo_inbox 10 1]"
    if rw: "process_message demo_cipher Some demo_mid 5 ''a@tmp.io'' ''s@x.org'' demo_message
              (ascii ''hello'') (demo_world 10 0) = (r, w')" for r w'
  proof -
    obtain m where m: "store_message demo_cipher Some demo_mid (db (demo_world 10 0)) demo_uuid
          ''s@x.org'' ''hi'' None (Some (ascii ''hello'')) (ascii ''hello'') [(''Subject'', ''hi'')] []
        = Inr (m, \<lparr>inboxes = [demo_inbox 10 0], messages = [m], attachments = []\<rparr>)"
      using demo_store by blast
    have gi: "get_inbox 5 (db (demo_world 10 0)) demo_uuid = Some (demo_inbox 10 0)"
      by (simp add: get_inbox_def demo_world_def demo_inbox_def)
    have s: "inboxes (set_message_count demo_uuid (message_count (demo_inbox 10 0) + 1)
                        (db (demo_world 10 0))) = [demo_inbox 10 1]"
      by (simp add: set_message_count_def demo_world_def demo_inbox_def)
    have r: "r = Inr ()" using demo_process_ok rw by simp
    show ?thesis
      using message_and_counter_commit_separately
              [OF g demo_UUID demo_subject demo_bodies demo_headers demo_atts rw] m gi d a s r
      by auto
  qed
  show ?thesis using 1 2 by (simp split: prod.splits)
qed

section \<open>Which part becomes the body\<close>

lemma part_body_Multi: "part_body (Multi h k sub fn ps) = Inl AttributeError"
  by (simp add: part_body_def)

lemma bodies_step_carry:
  "bodies_step (h, t) p =
     Inr (carry h (first_nonempty ''text/html'' [p]), carry t (first_nonempty ''text/plain'' [p]))"
proof (cases p)
  case (Leaf hd ct fn c pl)
  obtain b where b: "part_body (Leaf hd ct fn c pl) = Inr b"
    using part_body_Leaf[of hd ct fn c pl] by (cases "part_body (Leaf hd ct fn c pl)") auto
  show ?thesis
    using Leaf b
    by (cases h; cases t; cases "b = []")
       (auto simp: bodies_step_def Let_def carry_def)
next
  case (Multi hd k sub fn ps)
  then show ?thesis
    using multi_ctype_not_text[of hd k sub fn ps]
    by (cases h; cases t) (auto simp: bodies_step_def Let_def carry_def)
qed

lemma carry_carry:
  "carry (carry acc (first_nonempty ct [p])) (first_nonempty ct ps)
     = carry acc (first_nonempty ct (p # ps))"
  by (cases acc; cases "part_body p")
     (auto simp: carry_def split: option.splits)

lemma bodies_loop_carry:
  "bodies_loop (h, t) ps =
     Inr (carry h (first_nonempty ''text/html'' ps), carry t (first_nonempty ''text/plain'' ps))"
proof (induction ps arbitrary: h t)
  case Nil
  show ?case by (cases h; cases t) (simp_all add: carry_def)
next
  case (Cons p ps)
  show ?case
    by (simp only: bodies_loop.simps bodies_step_carry sum.case Cons.IH carry_carry)
qed

lemma carry_None: "carry None r = r"
  by (cases r) (simp_all add: carry_def)

text \<open>
  Claim C5, as stated, fails where the first part is empty. The loop tests
  \<open>not text_body\<close>, which is true of the empty string too: with an empty first
  \<open>text/plain\<close> part and a second one holding \<open>second\<close>, the text body is \<open>second\<close>,
  not the empty content of the first part.
\<close>

theorem first_match_counterexample:
  "extract_bodies demo_two_plain = Inr (None, Some (ascii ''second''))
   \<and> spec_first_match ''text/plain'' (walk demo_two_plain) = Some []"
  by (simp add: extract_bodies_def demo_two_plain_def bodies_step_def part_body_def ascii_def)

text \<open>
  Claim C5, amended. For a multipart message the text body (the HTML body) is the
  content of the first \<open>text/plain\<close> (\<open>text/html\<close>) part in walk order whose content is
  not empty; it is the empty string when every such part is empty and \<open>None\<close> when
  there is none. Later parts of the type are ignored once a non-empty one was found.
\<close>

theorem first_nonempty_wins:
  "is_multipart message \<Longrightarrow>
   extract_bodies message
     = Inr (first_nonempty ''text/html'' (walk message),
            first_nonempty ''text/plain'' (walk message))"
  by (simp add: extract_bodies_def bodies_loop_carry carry_None del: bodies_loop.simps)

theorem first_nonempty_wins_witness:
  "is_multipart demo_two_plain
   \<and> extract_bodies demo_two_plain
       = Inr (first_nonempty ''text/html'' (walk demo_two_plain),
              first_nonempty ''text/plain'' (walk demo_two_plain))
   \<and> first_nonempty ''text/plain'' (walk demo_two_plain) = Some (ascii ''second'')"
proof -
  have m: "is_multipart demo_two_plain" by (simp add: demo_two_plain_def)
  have f: "first_nonempty ''text/plain'' (walk demo_two_plain) = Some (ascii ''second'')"
    by (simp add: demo_two_plain_def part_body_def ascii_def)
  show ?thesis using first_nonempty_wins[OF m] m f by simp
qed

section \<open>What the extraction raises\<close>

lemma headers_loop_raises:
  "(\<exists>e. headers_loop hs names acc = Inl e) = (\<exists>n \<in> set names. \<exists>e. msg_get hs n = Inl e)"
proof (induction names arbitrary: acc)
  case Nil
  show ?case by simp
next
  case (Cons n names)
  show ?case
  proof (cases "msg_get hs n")
    case (Inl e)
    then show ?thesis by auto
  next
    case (Inr v)
    then show ?thesis using Cons.IH by (cases v) auto
  qed
qed








section \<open>The captured headers\<close>

lemma msg_get_no_raise:
  "\<forall>kv \<in> set hs. \<exists>s. snd kv = Value s \<Longrightarrow> msg_get hs n \<noteq> Inl e"
  by (induction hs) (auto split: if_splits)

lemma headers_loop_eq:
  "\<forall>n \<in> set names. \<forall>e. msg_get hs n \<noteq> Inl e \<Longrightarrow>
   headers_loop hs names acc
     = Inr (acc @ List.map_filter (\<lambda>n. map_option (Pair n) (header_entry hs n)) names)"
proof (induction names arbitrary: acc)
  case Nil
  show ?case by (simp add: List.map_filter_simps)
next
  case (Cons n names)
  then have ih: "\<And>acc. headers_loop hs names acc
     = Inr (acc @ List.map_filter (\<lambda>n. map_option (Pair n) (header_entry hs n)) names)"
    by simp
  show ?case
  proof (cases "msg_get hs n")
    case (Inl e)
    then show ?thesis using Cons.prems by simp
  next
    case (Inr v)
    then show ?thesis
      by (cases v) (simp_all add: ih List.map_filter_simps header_entry_def)
  qed
qed

lemma map_of_map_filter_names:
  "map_of (List.map_filter (\<lambda>n. map_option (Pair n) (f n)) names) name
     = (if name \<in> set names then f name else None)"
proof (induction names)
  case Nil
  show ?case by (simp add: List.map_filter_simps)
next
  case (Cons n names)
  show ?case
    by (cases "f n") (auto simp: Cons.IH List.map_filter_simps)
qed

lemma fst_map_filter_names:
  "map fst (List.map_filter (\<lambda>n. map_option (Pair n) (f n)) names)
     = filter (\<lambda>n. f n \<noteq> None) names"
proof (induction names)
  case Nil
  show ?case by (simp add: List.map_filter_simps)
next
  case (Cons n names)
  show ?case
    by (cases "f n") (auto simp: Cons.IH List.map_filter_simps)
qed

text \<open>
  Claim C6, as stated, fails. The list in the code has \<open>Bcc\<close> too, so a message with a
  \<open>Bcc\<close> header gets that key, which is outside the list of the claim; \<open>if value:\<close>
  drops a header that is present with an empty value; and for the message with
  \<open>From: "\<close>, whose \<open>From\<close> header is present, no map is produced at all: the
  access raises.
\<close>

theorem allow_list_counterexample:
  "extract_headers demo_bcc = Inr [(''Bcc'', ''x@y.z'')]
   \<and> ''Bcc'' \<notin> set spec_allow_list
   \<and> ''To'' \<in> set spec_allow_list
   \<and> msg_get (hdrs demo_bcc) ''To'' = Inr (Some [])
   \<and> ''From'' \<in> set spec_allow_list
   \<and> map fst (hdrs demo_bad_from) = [''From'', ''Subject'']
   \<and> extract_headers demo_bad_from = Inl IndexError"
  by code_simp

text \<open>
  Claim C6, amended. When the access to each of the eleven names of the code's list (the
  ten of the claim and \<open>Bcc\<close>) returns, the headers map holds exactly the names of
  that list whose first header of that name, compared without case, has a non-empty
  value, each mapped to that value, in the order of the list, and no other key. When
  the access to one of the names raises, \<open>_extract_headers\<close> raises and there is no
  map; it raises in no other case.
\<close>

theorem headers_are_the_nonempty_common_ones:
  "((\<forall>n \<in> set common_headers. \<forall>e. msg_get (hdrs message) n \<noteq> Inl e) \<longrightarrow>
      (\<exists>hm. extract_headers message = Inr hm
         \<and> map_of hm name
             = (if name \<in> set common_headers then header_entry (hdrs message) name else None)
         \<and> map fst hm
             = filter (\<lambda>n. header_entry (hdrs message) n \<noteq> None) common_headers))
   \<and> (\<exists>e. extract_headers message = Inl e)
       = (\<exists>n \<in> set common_headers. \<exists>e. msg_get (hdrs message) n = Inl e)
   \<and> set common_headers = set spec_allow_list \<union> {''Bcc''}"
proof -
  have 1: "(\<forall>n \<in> set common_headers. \<forall>e. msg_get (hdrs message) n \<noteq> Inl e) \<longrightarrow>
      (\<exists>hm. extract_headers message = Inr hm
         \<and> map_of hm name
             = (if name \<in> set common_headers then header_entry (hdrs message) name else None)
         \<and> map fst hm
             = filter (\<lambda>n. header_entry (hdrs message) n \<noteq> None) common_headers)"
  proof
    assume a: "\<forall>n \<in> set common_headers. \<forall>e. msg_get (hdrs message) n \<noteq> Inl e"
    show "\<exists>hm. extract_headers message = Inr hm
         \<and> map_of hm name
             = (if name \<in> set common_headers then header_entry (hdrs message) name else None)
         \<and> map fst hm
             = filter (\<lambda>n. header_entry (hdrs message) n \<noteq> None) common_headers"
      unfolding extract_headers_def headers_loop_eq[OF a]
      by (simp add: map_of_map_filter_names fst_map_filter_names)
  qed
  have 2: "(\<exists>e. extract_headers message = Inl e)
       = (\<exists>n \<in> set common_headers. \<exists>e. msg_get (hdrs message) n = Inl e)"
    by (simp add: extract_headers_def headers_loop_raises)
  have 3: "set common_headers = set spec_allow_list \<union> {''Bcc''}"
    by (auto simp: common_headers_def spec_allow_list_def)
  show ?thesis using 1 2 3 by blast
qed

theorem headers_are_the_nonempty_common_ones_witness:
  "msg_get (hdrs demo_bcc) ''Bcc'' = Inr (Some ''x@y.z'')
   \<and> (\<exists>hm. extract_headers demo_bcc = Inr hm
         \<and> map_of hm ''Bcc'' = Some ''x@y.z''
         \<and> map_of hm ''To'' = None
         \<and> map_of hm ''X-Mailer'' = None)
   \<and> ''From'' \<in> set common_headers
   \<and> msg_get (hdrs demo_bad_from) ''From'' = Inl IndexError
   \<and> (\<exists>e. extract_headers demo_bad_from = Inl e)"
proof -
  have 0: "\<forall>n \<in> set common_headers. \<forall>e. msg_get (hdrs demo_bcc) n \<noteq> Inl e"
    by (intro ballI allI msg_get_no_raise) (auto simp: demo_bcc_def)
  have 1: "header_entry (hdrs demo_bcc) ''Bcc'' = Some ''x@y.z''" by code_simp
  have 2: "header_entry (hdrs demo_bcc) ''To'' = None" by code_simp
  have 3: "''Bcc'' \<in> set common_headers" "''To'' \<in> set common_headers"
          "''X-Mailer'' \<notin> set common_headers" "''From'' \<in> set common_headers"
    by (simp_all add: common_headers_def)
  have 4: "msg_get (hdrs demo_bad_from) ''From'' = Inl IndexError" by code_simp
  obtain hm where hm: "extract_headers demo_bcc = Inr hm"
    using headers_are_the_nonempty_common_ones[of demo_bcc "''Bcc''"] 0 by blast
  have 5: "map_of hm ''Bcc'' = Some ''x@y.z''" "map_of hm ''To'' = None"
          "map_of hm ''X-Mailer'' = None"
    using headers_are_the_nonempty_common_ones[of demo_bcc "''Bcc''"]
          headers_are_the_nonempty_common_ones[of demo_bcc "''To''"]
          headers_are_the_nonempty_common_ones[of demo_bcc "''X-Mailer''"] 0 1 2 3 hm
    by simp_all
  have 6: "\<exists>e. extract_headers demo_bad_from = Inl e"
    using headers_are_the_nonempty_common_ones[of demo_bad_from "''From''"] 3(4) 4 by blast
  have 7: "msg_get (hdrs demo_bcc) ''Bcc'' = Inr (Some ''x@y.z'')" by code_simp
  show ?thesis using 7 hm 5 3 4 6 by simp
qed

section \<open>The cleanup cycle\<close>

lemma redis_delete_props:
  "redis_delete r k = (res, r') \<Longrightarrow>
   unavailable r' = unavailable r
   \<and> (kv r k' = None \<longrightarrow> kv r' k' = None)
   \<and> (res = Inr () \<longrightarrow> kv r' k = None)
   \<and> (\<not> unavailable r k \<longrightarrow> res = Inr ())"
  by (auto simp: redis_delete_def split: if_splits)












end
